theory Spec2Isabelle
  imports Main "HOL-Library.Word"
begin

unbundle bit_operations_syntax

section \<open>The firmware side of the serial protocol\<close>

text \<open>
  This theory embeds the firmware half of the protocol: the class \<open>MCPHandler\<close> of
  \<^verbatim>\<open>mcp/mcp.hpp\<close> (CRC-8, the SLIP encoder \<open>send_slip_frame\<close>, the SLIP decoder
  \<open>process_serial\<close>) and the method \<open>process_frame\<close>, which is defined after the
  generated bindings are included (in the header guarded by \<^verbatim>\<open>MCP_PROCESS_FRAME_HPP\<close> and,
  with the same text, in the blinker sketch).
\<close>

subsection \<open>Constants and data\<close>

type_synonym byte = "8 word"

text \<open>The \<^verbatim>\<open>#define\<close>s of \<^verbatim>\<open>mcp.hpp\<close>; like the macros, they are expanded where used.\<close>

abbreviation SLIP_END :: byte where "SLIP_END \<equiv> 0xC0"
abbreviation SLIP_ESC :: byte where "SLIP_ESC \<equiv> 0xDB"
abbreviation SLIP_ESC_END :: byte where "SLIP_ESC_END \<equiv> 0xDC"
abbreviation SLIP_ESC_ESC :: byte where "SLIP_ESC_ESC \<equiv> 0xDD"
abbreviation SLIP_CLEAR :: byte where "SLIP_CLEAR \<equiv> 0xDE"

abbreviation MAX_FRAME_SIZE :: nat where "MAX_FRAME_SIZE \<equiv> 256"

datatype MCPState = MCP_IDLE | MCP_RECEIVING | MCP_ESCAPED

text \<open>
  The fields of \<open>MCPHandler\<close>. The two arrays are lists, which the class keeps at
  \<open>MAX_FRAME_SIZE\<close> elements. \<open>frame_pos\<close> is an \<^verbatim>\<open>int\<close> in the source that is only
  ever set to 0 and incremented below 256, so it is a \<open>nat\<close> here. \<open>Serial\<close> is not a
  member: it stands for the global serial port, as the list of the bytes written to it so
  far, oldest first.
\<close>

record MCPHandler =
  frame_buffer :: "byte list"
  frame_pos :: nat
  state :: MCPState
  response_buffer :: "byte list"
  Serial :: "byte list"

text \<open>
  An access outside an array is undefined behaviour in the source; the model stops with a
  fault instead.
\<close>

datatype fault = FrameBufferOverrun | ResponseBufferOverrun

subsection \<open>CRC-8\<close>

text \<open>
  One round of the inner loop of \<open>crc8\<close>. The source computes \<^verbatim>\<open>(crc << 1) ^ 0x07\<close> in
  \<^verbatim>\<open>int\<close> and stores it back into a \<^verbatim>\<open>uint8_t\<close>; on \<open>8 word\<close> the shift drops the top bit
  at once, which gives the same byte.
\<close>

definition crc8_shift :: "byte \<Rightarrow> byte" where
  "crc8_shift crc = (if crc AND 0x80 \<noteq> 0 then push_bit 1 crc XOR 0x07 else push_bit 1 crc)"

text \<open>The body of the outer loop: fold one data byte in, then eight rounds.\<close>

definition crc8_update :: "byte \<Rightarrow> byte \<Rightarrow> byte" where
  "crc8_update crc b = (crc8_shift ^^ 8) (crc XOR b)"

text \<open>
  \<open>crc8 data len\<close> reads \<open>data[0]\<close> .. \<open>data[len - 1]\<close>; every caller passes a \<open>len\<close>
  within the array.
\<close>

definition crc8 :: "byte list \<Rightarrow> nat \<Rightarrow> byte" where
  "crc8 data len = foldl crc8_update 0x00 (take len data)"

text \<open>
  The reference pseudocode of the specification, on unbounded integers:
  \<^verbatim>\<open>crc = (crc << 1) ^ 0x07 if (crc & 0x80) else (crc << 1); crc &= 0xFF\<close>, eight times
  per byte after \<^verbatim>\<open>crc ^= b\<close>, starting from 0.
\<close>

definition crc8_reference_round :: "int \<Rightarrow> int" where
  "crc8_reference_round crc =
     (if crc AND 0x80 \<noteq> 0 then push_bit 1 crc XOR 0x07 else push_bit 1 crc) AND 0xFF"

definition crc8_reference_byte :: "int \<Rightarrow> int \<Rightarrow> int" where
  "crc8_reference_byte crc b = (crc8_reference_round ^^ 8) (crc XOR b)"

definition crc8_reference :: "int list \<Rightarrow> int" where
  "crc8_reference bs = foldl crc8_reference_byte 0x00 bs"

subsection \<open>SLIP encoder\<close>

definition Serial_write :: "byte \<Rightarrow> 'a MCPHandler_scheme \<Rightarrow> 'a MCPHandler_scheme" where
  "Serial_write b h = h\<lparr>Serial := Serial h @ [b]\<rparr>"

definition reset_frame :: "'a MCPHandler_scheme \<Rightarrow> 'a MCPHandler_scheme" where
  "reset_frame h = h\<lparr>frame_pos := 0, state := MCP_IDLE\<rparr>"

text \<open>The escaping loop of \<open>send_slip_frame\<close>, over the bytes still to send.\<close>

fun send_escaped :: "byte list \<Rightarrow> 'a MCPHandler_scheme \<Rightarrow> 'a MCPHandler_scheme" where
  "send_escaped [] h = h"
| "send_escaped (b # bs) h =
     send_escaped bs
       (if b = SLIP_END then Serial_write SLIP_ESC_END (Serial_write SLIP_ESC h)
        else if b = SLIP_ESC then Serial_write SLIP_ESC_ESC (Serial_write SLIP_ESC h)
        else Serial_write b h)"

definition send_slip_frame ::
  "byte list \<Rightarrow> nat \<Rightarrow> 'a MCPHandler_scheme \<Rightarrow> 'a MCPHandler_scheme" where
  "send_slip_frame data len h =
     Serial_write SLIP_END
       (send_escaped (take len data)
          (Serial_write SLIP_END (Serial_write SLIP_CLEAR (Serial_write SLIP_ESC h))))"

text \<open>
  The encoding as the specification words it: \<open>ESC CLEAR\<close>, \<open>END\<close>, each payload byte
  escaped or verbatim, \<open>END\<close>.
\<close>

definition slip_escape :: "byte \<Rightarrow> byte list" where
  "slip_escape b =
     (if b = SLIP_END then [SLIP_ESC, SLIP_ESC_END]
      else if b = SLIP_ESC then [SLIP_ESC, SLIP_ESC_ESC]
      else [b])"

definition slip_encoding :: "byte list \<Rightarrow> byte list" where
  "slip_encoding payload =
     [SLIP_ESC, SLIP_CLEAR] @ [SLIP_END] @ concat (map slip_escape payload) @ [SLIP_END]"

text \<open>The bytes that an operation \<open>f\<close> appends to the serial port of \<open>h\<close>.\<close>

definition written_by ::
  "('a MCPHandler_scheme \<Rightarrow> 'a MCPHandler_scheme) \<Rightarrow> 'a MCPHandler_scheme \<Rightarrow> byte list" where
  "written_by f h = drop (length (Serial h)) (Serial (f h))"

subsection \<open>SLIP decoder\<close>

text \<open>The statement \<^verbatim>\<open>frame_buffer[frame_pos++] = b\<close>.\<close>

definition store_frame_byte ::
  "byte \<Rightarrow> 'a MCPHandler_scheme \<Rightarrow> fault + 'a MCPHandler_scheme" where
  "store_frame_byte b h =
     (if frame_pos h < length (frame_buffer h)
      then Inr (h\<lparr>frame_buffer := (frame_buffer h)[frame_pos h := b],
                  frame_pos := frame_pos h + 1\<rparr>)
      else Inl FrameBufferOverrun)"

text \<open>
  One iteration of the loop of \<open>process_serial\<close>, for the byte just read. The class only
  declares \<open>process_frame\<close>, so the decoder takes it as the parameter \<open>pf\<close>. The numerals
  written to \<open>Serial\<close> are the debug characters \<^verbatim>\<open>R S E P \ D X e s !\<close>.
\<close>

definition process_byte ::
  "('a MCPHandler_scheme \<Rightarrow> fault + 'a MCPHandler_scheme) \<Rightarrow>
   'a MCPHandler_scheme \<Rightarrow> byte \<Rightarrow> fault + 'a MCPHandler_scheme" where
  "process_byte pf h0 b =
     (let h = Serial_write 0x52 h0 in
      case state h of
        MCP_IDLE \<Rightarrow>
          if b = SLIP_END
          then Inr ((Serial_write 0x53 h)\<lparr>state := MCP_RECEIVING, frame_pos := 0\<rparr>)
          else Inr h
      | MCP_RECEIVING \<Rightarrow>
          if b = SLIP_END then
            (let h1 = Serial_write 0x45 h in
             case (if 1 < frame_pos h1 then pf (Serial_write 0x50 h1) else Inr h1) of
               Inl e \<Rightarrow> Inl e
             | Inr h2 \<Rightarrow> Inr (reset_frame h2))
          else if b = SLIP_ESC then Inr ((Serial_write 0x5C h)\<lparr>state := MCP_ESCAPED\<rparr>)
          else if frame_pos h < MAX_FRAME_SIZE then store_frame_byte b (Serial_write 0x44 h)
          else Inr (reset_frame (Serial_write 0x58 h))
      | MCP_ESCAPED \<Rightarrow>
          (case
             (if b = SLIP_ESC_END then
                (let h1 = Serial_write 0x65 h in
                 if frame_pos h1 < MAX_FRAME_SIZE then store_frame_byte SLIP_END h1
                 else Inr (reset_frame (Serial_write 0x58 h1)))
              else if b = SLIP_ESC_ESC then
                (let h1 = Serial_write 0x73 h in
                 if frame_pos h1 < MAX_FRAME_SIZE then store_frame_byte SLIP_ESC h1
                 else Inr (reset_frame (Serial_write 0x58 h1)))
              else Inr (reset_frame (Serial_write 0x21 h)))
           of Inl e \<Rightarrow> Inl e
            | Inr h2 \<Rightarrow> Inr (h2\<lparr>state := MCP_RECEIVING\<rparr>)))"

text \<open>
  \<open>process_serial\<close>: the loop runs while bytes are available; \<open>rx\<close> is the sequence of
  bytes that \<^verbatim>\<open>Serial.read()\<close> returns.
\<close>

fun process_serial ::
  "('a MCPHandler_scheme \<Rightarrow> fault + 'a MCPHandler_scheme) \<Rightarrow>
   'a MCPHandler_scheme \<Rightarrow> byte list \<Rightarrow> fault + 'a MCPHandler_scheme" where
  "process_serial pf h [] = Inr h"
| "process_serial pf h (b # rx) =
     (case process_byte pf h b of
        Inl e \<Rightarrow> Inl e
      | Inr h' \<Rightarrow> process_serial pf h' rx)"

text \<open>
  The debug characters that the decoder prints while it receives the encoding of one
  payload byte: \<^verbatim>\<open>R \ R e\<close> for an escaped \<open>END\<close>, \<^verbatim>\<open>R \ R s\<close> for an escaped \<open>ESC\<close>,
  \<^verbatim>\<open>R D\<close> for any other byte.
\<close>

definition debug_trace :: "byte \<Rightarrow> byte list" where
  "debug_trace b =
     (if b = SLIP_END then [0x52, 0x5C, 0x52, 0x65]
      else if b = SLIP_ESC then [0x52, 0x5C, 0x52, 0x73]
      else [0x52, 0x44])"

subsection \<open>Frame processing\<close>

text \<open>
  \<open>MCPBindings::dispatch\<close> is generated at build time and not part of the sources, so it
  is a parameter. It receives the frame buffer, the data length, the response buffer and
  \<open>max_len\<close>; it yields its return value, the response buffer as it left it, the length it
  stored through \<^verbatim>\<open>response_len\<close>, and whatever the called tool printed on the serial
  port.
\<close>

record dispatch_outcome =
  result :: int
  response :: "byte list"
  response_len :: int
  tool_output :: "byte list"

type_synonym dispatcher = "byte list \<Rightarrow> nat \<Rightarrow> byte list \<Rightarrow> nat \<Rightarrow> dispatch_outcome"

text \<open>
  The error branch shared by both error exits of \<open>process_frame\<close>: the array is
  initialised to \<open>{0xFF, code}\<close>, then element 1 receives the CRC of the first byte and
  two bytes are sent.
\<close>

definition send_error_response :: "byte \<Rightarrow> 'a MCPHandler_scheme \<Rightarrow> 'a MCPHandler_scheme" where
  "send_error_response code h =
     (let error_response = [0xFF, code];
          error_crc = crc8 error_response 1;
          error_response = error_response[1 := error_crc]
      in send_slip_frame error_response 2 h)"

definition process_frame ::
  "dispatcher \<Rightarrow> 'a MCPHandler_scheme \<Rightarrow> fault + 'a MCPHandler_scheme" where
  "process_frame dispatch h =
     (if frame_pos h < 2 then Inr h
      else
        let data_len = frame_pos h - 1;
            received_crc = frame_buffer h ! (frame_pos h - 1);
            calculated_crc = crc8 (frame_buffer h) data_len
        in
          if received_crc \<noteq> calculated_crc then Inr (send_error_response 0x01 h)
          else
            let r = dispatch (frame_buffer h) data_len (response_buffer h) (MAX_FRAME_SIZE - 1);
                h1 = h\<lparr>response_buffer := response r, Serial := Serial h @ tool_output r\<rparr>
            in
              if result r = 0 then
                if response_len r < 0 \<or> int (length (response_buffer h1)) \<le> response_len r
                then Inl ResponseBufferOverrun
                else
                  let n = nat (response_len r);
                      response_crc = crc8 (response_buffer h1) n;
                      h2 = h1\<lparr>response_buffer := (response_buffer h1)[n := response_crc]\<rparr>
                  in Inr (send_slip_frame (response_buffer h2) (n + 1) h2)
              else Inr (send_error_response 0x02 h1))"

subsection \<open>Observing the decoder\<close>

text \<open>
  To see which frames the decoder hands to \<open>process_frame\<close>, the handler is extended by a
  log, and \<open>record_frame\<close> is a \<open>process_frame\<close> that does nothing but append the
  buffered bytes \<open>frame_buffer[0 .. frame_pos - 1]\<close> to it.
\<close>

record Probe = MCPHandler +
  handed :: "byte list list"

definition record_frame :: "Probe \<Rightarrow> fault + Probe" where
  "record_frame h = Inr (h\<lparr>handed := handed h @ [take (frame_pos h) (frame_buffer h)]\<rparr>)"

definition frames_of :: "fault + Probe \<Rightarrow> byte list list option" where
  "frames_of r = (case r of Inl e \<Rightarrow> None | Inr h \<Rightarrow> Some (handed h))"

definition state_of :: "fault + 'a MCPHandler_scheme \<Rightarrow> MCPState option" where
  "state_of r = (case r of Inl e \<Rightarrow> None | Inr h \<Rightarrow> Some (state h))"

text \<open>
  The handler after construction (\<open>frame_pos(0), state(MCP_IDLE)\<close>); the object is a
  global, so its arrays start zeroed.
\<close>

definition power_on :: Probe where
  "power_on = \<lparr>frame_buffer = replicate MAX_FRAME_SIZE 0, frame_pos = 0, state = MCP_IDLE,
     response_buffer = replicate MAX_FRAME_SIZE 0, Serial = [], handed = []\<rparr>"

text \<open>The serial output of a run, when it ends without a fault.\<close>

definition serial_of :: "fault + 'a MCPHandler_scheme \<Rightarrow> byte list option" where
  "serial_of r = (case r of Inl e \<Rightarrow> None | Inr h \<Rightarrow> Some (Serial h))"

text \<open>
  The decoder's buffer invariant: the position is within the array, the array has its
  declared size, and no frame handed on so far is longer than the array.
\<close>

definition within_bounds :: "Probe \<Rightarrow> bool" where
  "within_bounds h \<longleftrightarrow>
     frame_pos h \<le> MAX_FRAME_SIZE \<and> length (frame_buffer h) = MAX_FRAME_SIZE
     \<and> (\<forall>f \<in> set (handed h). length f \<le> MAX_FRAME_SIZE)"

subsection \<open>Sample dispatchers and handler states\<close>

text \<open>
  Two dispatchers to run \<open>process_frame\<close> on: one that knows no tag and fails on every
  command, and one whose tool returns the \<open>i16\<close> value 42, stored as \<open>2A 00\<close>.
\<close>

definition rejecting_dispatch :: dispatcher where
  "rejecting_dispatch data len resp max_len =
     \<lparr>result = 1, response = resp, response_len = 0, tool_output = []\<rparr>"

definition answering_dispatch :: dispatcher where
  "answering_dispatch data len resp max_len =
     \<lparr>result = 0, response = resp[0 := 0x2A, 1 := 0x00], response_len = 2, tool_output = []\<rparr>"

text \<open>
  The handler after it has received \<open>END\<close> and the single byte 0x41, and a handler that
  holds the two-byte command frame \<open>02 0E\<close> (tag 2 and its CRC).
\<close>

definition one_byte_pending :: Probe where
  "one_byte_pending = power_on\<lparr>frame_buffer := (frame_buffer power_on)[0 := 0x41],
     frame_pos := 1, state := MCP_RECEIVING, Serial := [0x52, 0x53, 0x52, 0x44]\<rparr>"

definition command_pending :: Probe where
  "command_pending = power_on\<lparr>frame_buffer := (frame_buffer power_on)[0 := 0x02, 1 := 0x0E],
     frame_pos := 2, state := MCP_RECEIVING\<rparr>"

text \<open>What \<open>answering_dispatch\<close> yields for that command.\<close>

definition answer :: dispatch_outcome where
  "answer = answering_dispatch (frame_buffer command_pending) (frame_pos command_pending - 1)
     (response_buffer command_pending) 255"

section \<open>CRC-8\<close>

text \<open>The word operations of one round agree with the integer operations read modulo 256.\<close>

lemma top_bit_uint: "(c AND 0x80 \<noteq> 0) = (uint c AND 0x80 \<noteq> 0)" for c :: byte
proof -
  have "uint (c AND 0x80) = uint c AND 0x80"
    by (simp add: uint_and)
  then show ?thesis
    by (metis uint_0_iff)
qed

lemma uint_shift_left: "uint (push_bit 1 c :: byte) = take_bit 8 (push_bit 1 (uint c))"
  by (simp only: unsigned_push_bit_eq) simp

lemma uint_shift_left_poly:
  "uint (push_bit 1 c XOR 0x07 :: byte) = take_bit 8 (push_bit 1 (uint c) XOR 0x07)"
  by (simp only: uint_xor uint_shift_left take_bit_xor) simp

lemma low_byte_mask: "(k::int) AND 0xFF = take_bit 8 k"
  by (simp add: take_bit_eq_mask mask_numeral)

lemma uint_crc8_shift: "uint (crc8_shift c) = crc8_reference_round (uint c)"
  unfolding crc8_shift_def crc8_reference_round_def
  by (simp only: top_bit_uint uint_shift_left uint_shift_left_poly low_byte_mask
        if_distrib [of uint] if_distrib [of "take_bit 8"] cong: if_cong)

lemma uint_crc8_rounds: "uint ((crc8_shift ^^ n) c) = (crc8_reference_round ^^ n) (uint c)"
  by (induction n) (simp_all add: uint_crc8_shift)

lemma uint_crc8_update: "uint (crc8_update c b) = crc8_reference_byte (uint c) (uint b)"
  by (simp add: crc8_update_def crc8_reference_byte_def uint_crc8_rounds uint_xor)

lemma uint_crc8_fold:
  "uint (foldl crc8_update c bs) = foldl crc8_reference_byte (uint c) (map uint bs)"
  by (induction bs arbitrary: c) (simp_all add: uint_crc8_update)

text \<open>
  Claim C5. For every byte span \<open>data[0 .. len - 1]\<close>, the firmware's \<open>crc8\<close> returns the
  value that the reference pseudocode (polynomial 0x07, initial value 0, MSB first, no
  final XOR, truncated to 8 bits after every round) computes on the same bytes.
\<close>

theorem crc8_refines_reference:
  "uint (crc8 data len) = crc8_reference (map uint (take len data))"
  by (simp add: crc8_def crc8_reference_def uint_crc8_fold)

lemma crc8_shift_zero: "(crc8_shift ^^ 8) 0 = 0"
  by (simp add: crc8_shift_def numeral_eq_Suc)

lemma crc8_whole: "crc8 a (length a) = foldl crc8_update 0 a"
  by (simp add: crc8_def)

lemma crc8_update_self: "crc8_update c c = 0"
  by (simp add: crc8_update_def crc8_shift_zero)

text \<open>
  Claim C6. The CRC of the empty span is 0x00, and the CRC of a span followed by its own
  CRC is 0x00.
\<close>

theorem crc8_self_check:
  "crc8 data 0 = 0x00 \<and> crc8 (a @ [crc8 a (length a)]) (length a + 1) = 0x00"
proof
  show "crc8 data 0 = 0x00"
    by (simp add: crc8_def)
next
  have "crc8 (a @ [crc8 a (length a)]) (length (a @ [crc8 a (length a)]))
          = crc8_update (crc8 a (length a)) (crc8 a (length a))"
    unfolding crc8_whole by simp
  then show "crc8 (a @ [crc8 a (length a)]) (length a + 1) = 0x00"
    by (simp add: crc8_update_self)
qed

section \<open>SLIP encoder\<close>

lemma send_escaped_eq:
  "send_escaped bs h = h\<lparr>Serial := Serial h @ concat (map slip_escape bs)\<rparr>"
  by (induction bs arbitrary: h) (simp_all add: Serial_write_def slip_escape_def)

lemma send_slip_frame_eq:
  "send_slip_frame data len h = h\<lparr>Serial := Serial h @ slip_encoding (take len data)\<rparr>"
  by (simp add: send_slip_frame_def send_escaped_eq Serial_write_def slip_encoding_def)

lemma written_by_send_slip_frame:
  "written_by (send_slip_frame data len) tx = slip_encoding (take len data)"
  by (simp add: written_by_def send_slip_frame_eq)

lemma no_END_in_escape: "SLIP_END \<notin> set (slip_escape b)"
  by (simp add: slip_escape_def)

text \<open>
  Claim C7. For every payload span \<open>data[0 .. len - 1]\<close>, \<open>send_slip_frame\<close> changes
  nothing but the serial port, to which it appends \<open>ESC CLEAR\<close>, \<open>END\<close>, the payload with
  \<open>END\<close> sent as \<open>ESC ESC_END\<close>, \<open>ESC\<close> as \<open>ESC ESC_ESC\<close> and every other byte verbatim,
  and a final \<open>END\<close>; the bytes between the two \<open>END\<close>s contain no 0xC0.
\<close>

theorem send_slip_frame_wire:
  "send_slip_frame data len h =
     h\<lparr>Serial := Serial h @ [SLIP_ESC, SLIP_CLEAR] @ [SLIP_END]
             @ concat (map slip_escape (take len data)) @ [SLIP_END]\<rparr>
   \<and> SLIP_END \<notin> set (concat (map slip_escape (take len data)))"
  using send_slip_frame_eq [of data len h]
  by (simp add: slip_encoding_def no_END_in_escape)

section \<open>SLIP decoder\<close>

lemma process_serial_append:
  "process_serial pf h (xs @ ys) =
     (case process_serial pf h xs of Inl e \<Rightarrow> Inl e | Inr h' \<Rightarrow> process_serial pf h' ys)"
  by (induction xs arbitrary: h) (simp_all split: sum.splits)

lemma take_Suc_update: "n < length xs \<Longrightarrow> take (Suc n) (xs[n := b]) = take n xs @ [b]"
  by (simp add: take_Suc_conv_app_nth)

lemma receive_escaped_byte:
  assumes "state h = MCP_RECEIVING" "frame_pos h < MAX_FRAME_SIZE"
    "length (frame_buffer h) = MAX_FRAME_SIZE"
  shows "process_serial pf h (slip_escape b) =
     Inr (h\<lparr>frame_buffer := (frame_buffer h)[frame_pos h := b],
             frame_pos := Suc (frame_pos h), state := MCP_RECEIVING,
             Serial := Serial h @ debug_trace b\<rparr>)"
  using assms
  by (simp add: slip_escape_def process_byte_def Serial_write_def store_frame_byte_def
        debug_trace_def)

lemma receive_escaped:
  assumes "state h = MCP_RECEIVING" "frame_pos h + length v \<le> MAX_FRAME_SIZE"
    "length (frame_buffer h) = MAX_FRAME_SIZE"
  shows "\<exists>fb tr. process_serial pf h (concat (map slip_escape v)) =
       Inr (h\<lparr>frame_buffer := fb, frame_pos := frame_pos h + length v, Serial := tr\<rparr>)
     \<and> length fb = MAX_FRAME_SIZE
     \<and> take (frame_pos h + length v) fb = take (frame_pos h) (frame_buffer h) @ v"
  using assms
proof (induction v arbitrary: h)
  case Nil
  have "h = h\<lparr>frame_buffer := frame_buffer h, frame_pos := frame_pos h, Serial := Serial h\<rparr>"
    by simp
  with Nil show ?case
    by (metis add.right_neutral append_Nil2 concat.simps(1) list.map(1) list.size(3)
        process_serial.simps(1))
next
  case (Cons b v)
  let ?h1 = "h\<lparr>frame_buffer := (frame_buffer h)[frame_pos h := b],
              frame_pos := Suc (frame_pos h), state := MCP_RECEIVING,
              Serial := Serial h @ debug_trace b\<rparr>"
  from Cons.prems have step: "process_serial pf h (slip_escape b) = Inr ?h1"
    using receive_escaped_byte [of h pf b] by simp
  from Cons.prems have "state ?h1 = MCP_RECEIVING"
    "frame_pos ?h1 + length v \<le> MAX_FRAME_SIZE" "length (frame_buffer ?h1) = MAX_FRAME_SIZE"
    by simp_all
  from Cons.IH [OF this] obtain fb tr where
    rest: "process_serial pf ?h1 (concat (map slip_escape v)) =
        Inr (?h1\<lparr>frame_buffer := fb, frame_pos := frame_pos ?h1 + length v, Serial := tr\<rparr>)"
      "length fb = MAX_FRAME_SIZE"
      "take (frame_pos ?h1 + length v) fb = take (frame_pos ?h1) (frame_buffer ?h1) @ v"
    by blast
  from Cons.prems have "frame_pos h < length (frame_buffer h)"
    by simp
  then have "take (frame_pos ?h1) (frame_buffer ?h1) = take (frame_pos h) (frame_buffer h) @ [b]"
    by (simp add: take_Suc_update)
  with rest(3) have content:
    "take (frame_pos h + length (b # v)) fb = take (frame_pos h) (frame_buffer h) @ b # v"
    by simp
  from Cons.prems(1) have same:
    "?h1\<lparr>frame_buffer := fb, frame_pos := frame_pos ?h1 + length v, Serial := tr\<rparr>
       = h\<lparr>frame_buffer := fb, frame_pos := frame_pos h + length (b # v), Serial := tr\<rparr>"
    by (intro MCPHandler.equality) simp_all
  have "concat (map slip_escape (b # v)) = slip_escape b @ concat (map slip_escape v)"
    by simp
  then have "process_serial pf h (concat (map slip_escape (b # v))) =
      Inr (?h1\<lparr>frame_buffer := fb, frame_pos := frame_pos ?h1 + length v, Serial := tr\<rparr>)"
    by (simp only: process_serial_append step rest(1) sum.case)
  then have "process_serial pf h (concat (map slip_escape (b # v))) =
      Inr (h\<lparr>frame_buffer := fb, frame_pos := frame_pos h + length (b # v), Serial := tr\<rparr>)"
    by (simp only: same)
  with rest(2) content show ?case
    by blast
qed

lemma receive_frame_start:
  assumes "state h = MCP_IDLE"
  shows "process_serial pf h [SLIP_ESC, SLIP_CLEAR, SLIP_END] =
     Inr (h\<lparr>Serial := Serial h @ [0x52, 0x52, 0x52, 0x53], state := MCP_RECEIVING,
             frame_pos := 0\<rparr>)"
  using assms by (simp add: process_byte_def Serial_write_def)

lemma receive_frame_end:
  assumes "state h = MCP_RECEIVING" "1 < frame_pos h"
  shows "process_serial record_frame h [SLIP_END] =
     Inr (h\<lparr>Serial := Serial h @ [0x52, 0x45, 0x50], frame_pos := 0, state := MCP_IDLE,
             handed := handed h @ [take (frame_pos h) (frame_buffer h)]\<rparr>)"
  using assms
  by (simp add: process_byte_def Serial_write_def record_frame_def reset_frame_def)

lemma receive_encoding:
  assumes "state h = MCP_IDLE" "length (frame_buffer h) = MAX_FRAME_SIZE"
    "2 \<le> length v" "length v \<le> MAX_FRAME_SIZE"
  shows "\<exists>h'. process_serial record_frame h (slip_encoding v) = Inr h'
     \<and> handed h' = handed h @ [v] \<and> state h' = MCP_IDLE \<and> frame_pos h' = 0
     \<and> length (frame_buffer h') = MAX_FRAME_SIZE"
proof -
  let ?h1 = "h\<lparr>Serial := Serial h @ [0x52, 0x52, 0x52, 0x53], state := MCP_RECEIVING,
             frame_pos := 0\<rparr>"
  have start: "process_serial record_frame h [SLIP_ESC, SLIP_CLEAR, SLIP_END] = Inr ?h1"
    using assms(1) by (rule receive_frame_start)
  from assms have "state ?h1 = MCP_RECEIVING" "frame_pos ?h1 + length v \<le> MAX_FRAME_SIZE"
    "length (frame_buffer ?h1) = MAX_FRAME_SIZE"
    by simp_all
  from receive_escaped [OF this, of record_frame] obtain fb tr where
    run: "process_serial record_frame ?h1 (concat (map slip_escape v)) =
        Inr (?h1\<lparr>frame_buffer := fb, frame_pos := frame_pos ?h1 + length v, Serial := tr\<rparr>)"
      "length fb = MAX_FRAME_SIZE"
      "take (frame_pos ?h1 + length v) fb = take (frame_pos ?h1) (frame_buffer ?h1) @ v"
    by blast
  define h2 where
    "h2 = ?h1\<lparr>frame_buffer := fb, frame_pos := frame_pos ?h1 + length v, Serial := tr\<rparr>"
  with run have
    body: "process_serial record_frame ?h1 (concat (map slip_escape v)) = Inr h2"
      "state h2 = MCP_RECEIVING" "frame_pos h2 = length v"
      "take (frame_pos h2) (frame_buffer h2) = v"
      "length (frame_buffer h2) = MAX_FRAME_SIZE" "handed h2 = handed h"
    by simp_all
  from body assms(3) have "1 < frame_pos h2"
    by simp
  with body have fin: "process_serial record_frame h2 [SLIP_END] =
     Inr (h2\<lparr>Serial := Serial h2 @ [0x52, 0x45, 0x50], frame_pos := 0, state := MCP_IDLE,
             handed := handed h @ [v]\<rparr>)"
    using receive_frame_end [of h2] by simp
  have "slip_encoding v = [SLIP_ESC, SLIP_CLEAR, SLIP_END] @ concat (map slip_escape v) @ [SLIP_END]"
    by (simp add: slip_encoding_def)
  then have "process_serial record_frame h (slip_encoding v) =
     Inr (h2\<lparr>Serial := Serial h2 @ [0x52, 0x45, 0x50], frame_pos := 0, state := MCP_IDLE,
             handed := handed h @ [v]\<rparr>)"
    by (simp only: process_serial_append start body fin sum.case)
  with body show ?thesis
    by simp
qed

text \<open>
  Claim C3, as the code has it. The decoder hands a frame on only when it holds more than
  one byte. For every byte vector \<open>v\<close> of length 2 to 254, feeding the bytes that
  \<open>send_slip_frame\<close> writes for \<open>v\<close> into a decoder in state \<open>IDLE\<close> makes it hand on
  exactly the frame \<open>v\<close> and no other frame.
\<close>

theorem slip_round_trip:
  assumes "state h = MCP_IDLE" "length (frame_buffer h) = MAX_FRAME_SIZE"
    "2 \<le> length v" "length v \<le> 254"
  shows "frames_of (process_serial record_frame h (written_by (send_slip_frame v (length v)) tx))
     = Some (handed h @ [v])"
proof -
  from assms obtain h' where
    "process_serial record_frame h (slip_encoding v) = Inr h'" "handed h' = handed h @ [v]"
    using receive_encoding [of h v] by auto
  then show ?thesis
    by (simp add: written_by_send_slip_frame frames_of_def)
qed

theorem slip_round_trip_witness:
  "state power_on = MCP_IDLE \<and> length (frame_buffer power_on) = MAX_FRAME_SIZE
   \<and> 2 \<le> length [0x01, 0x07 :: byte] \<and> length [0x01, 0x07 :: byte] \<le> 254
   \<and> frames_of (process_serial record_frame power_on
        (written_by (send_slip_frame [0x01, 0x07] 2) power_on)) = Some [[0x01, 0x07]]"
  using slip_round_trip [of power_on "[0x01, 0x07]" power_on]
  by (simp add: power_on_def numeral_2_eq_2)

text \<open>
  The claim as stated fails for a vector of one byte: the encoding of \<open>[0x41]\<close>, fed to the
  decoder after power-on, produces no frame.
\<close>

theorem slip_round_trip_short_counterexample:
  "length [0x41 :: byte] \<le> 254
   \<and> frames_of (process_serial record_frame power_on
        (written_by (send_slip_frame [0x41] 1) power_on)) = Some []"
  by (simp add: written_by_send_slip_frame slip_encoding_def slip_escape_def power_on_def
        process_byte_def Serial_write_def store_frame_byte_def reset_frame_def frames_of_def)

text \<open>
  Claim C4, as the code has it. From state \<open>RECEIVING\<close> with a non-empty buffer, the
  bytes \<open>END END\<close> leave the decoder in state \<open>RECEIVING\<close> with an empty buffer, because the
  second \<open>END\<close> opens a new frame; the first \<open>END\<close> hands the buffered bytes on as a frame
  exactly when there are at least two of them, and no other frame is handed on.
\<close>

theorem END_END_after_partial_frame:
  assumes "state h = MCP_RECEIVING" "0 < frame_pos h"
  shows "process_serial record_frame h [SLIP_END, SLIP_END] =
     Inr (h\<lparr>Serial := Serial h @
                (if 1 < frame_pos h then [0x52, 0x45, 0x50, 0x52, 0x53]
                 else [0x52, 0x45, 0x52, 0x53]),
             frame_pos := 0, state := MCP_RECEIVING,
             handed := handed h @
                (if 1 < frame_pos h then [take (frame_pos h) (frame_buffer h)] else [])\<rparr>)"
  using assms(1)
  by (simp add: process_byte_def Serial_write_def record_frame_def reset_frame_def)

theorem END_END_after_partial_frame_witness:
  "state one_byte_pending = MCP_RECEIVING \<and> 0 < frame_pos one_byte_pending
   \<and> state_of (process_serial record_frame one_byte_pending [SLIP_END, SLIP_END])
       = Some MCP_RECEIVING
   \<and> frames_of (process_serial record_frame one_byte_pending [SLIP_END, SLIP_END]) = Some []"
proof -
  have a: "state one_byte_pending = MCP_RECEIVING" and b: "0 < frame_pos one_byte_pending"
    by (simp_all add: one_byte_pending_def power_on_def)
  have c: "frame_pos one_byte_pending = 1" and d: "handed one_byte_pending = []"
    by (simp_all add: one_byte_pending_def power_on_def)
  note e = END_END_after_partial_frame [OF a b]
  show ?thesis
    unfolding e by (simp add: a c d state_of_def frames_of_def)
qed

text \<open>
  The claim as stated fails after the two bytes \<open>01 07\<close> of a frame in progress: \<open>END END\<close>
  hands the frame \<open>[01, 07]\<close> on and ends in state \<open>RECEIVING\<close>.
\<close>

theorem END_END_counterexample:
  "state_of (process_serial record_frame power_on [SLIP_END, 0x01, 0x07]) = Some MCP_RECEIVING
   \<and> frames_of (process_serial record_frame power_on [SLIP_END, 0x01, 0x07]) = Some []
   \<and> state_of (process_serial record_frame power_on ([SLIP_END, 0x01, 0x07] @ [SLIP_END, SLIP_END]))
       = Some MCP_RECEIVING
   \<and> frames_of (process_serial record_frame power_on ([SLIP_END, 0x01, 0x07] @ [SLIP_END, SLIP_END]))
       = Some [[0x01, 0x07]]"
  by code_simp

lemma bad_escape_step:
  assumes "state h = MCP_ESCAPED" "b \<noteq> SLIP_ESC_END" "b \<noteq> SLIP_ESC_ESC"
  shows "process_byte pf h b =
     Inr (h\<lparr>Serial := Serial h @ [0x52, 0x21], frame_pos := 0, state := MCP_RECEIVING\<rparr>)"
  using assms by (simp add: process_byte_def Serial_write_def reset_frame_def)

text \<open>
  Claim C2 does not hold of the code. After an invalid escape the decoder calls
  \<open>reset_frame\<close>, which selects \<open>IDLE\<close>, and then assigns \<open>RECEIVING\<close> on leaving the
  \<open>ESCAPED\<close> branch. Evaluated: the byte \<open>CLEAR\<close> in state \<open>ESCAPED\<close>, and the bytes
  \<open>ESC CLEAR\<close> after a frame has begun, both end in \<open>RECEIVING\<close>; a whole encoded frame
  that arrives while a frame is in progress is then lost, since the \<open>END\<close> after the reset
  prefix closes an empty frame instead of opening one.
\<close>

theorem invalid_escape_ends_in_RECEIVING:
  "state_of (process_byte record_frame (power_on\<lparr>state := MCP_ESCAPED, frame_pos := 1\<rparr>) SLIP_CLEAR)
     = Some MCP_RECEIVING
   \<and> state_of (process_serial record_frame power_on [SLIP_END, 0x01, SLIP_ESC, SLIP_CLEAR])
     = Some MCP_RECEIVING
   \<and> frames_of (process_serial record_frame power_on
        ([SLIP_END, 0x01] @ written_by (send_slip_frame [0x01, 0x07] 2) power_on)) = Some []"
  by code_simp

lemma process_byte_within_bounds:
  assumes "within_bounds h"
  shows "\<exists>h'. process_byte record_frame h b = Inr h' \<and> within_bounds h'"
  using assms
  by (cases "state h")
     (auto simp add: within_bounds_def process_byte_def Serial_write_def store_frame_byte_def
        reset_frame_def record_frame_def Let_def)

lemma process_serial_within_bounds:
  assumes "within_bounds h"
  shows "\<exists>h'. process_serial record_frame h rx = Inr h' \<and> within_bounds h'"
  using assms
proof (induction rx arbitrary: h)
  case Nil
  then show ?case by simp
next
  case (Cons b rx)
  from process_byte_within_bounds [OF Cons.prems, of b] obtain h1 where
    "process_byte record_frame h b = Inr h1" "within_bounds h1"
    by blast
  with Cons.IH [of h1] show ?case
    by simp
qed

lemma process_frame_keeps_decoder:
  assumes "process_frame dispatch h = Inr h'"
  shows "frame_buffer h' = frame_buffer h \<and> frame_pos h' = frame_pos h \<and> state h' = state h"
  using assms
  by (auto simp add: process_frame_def Let_def send_error_response_def send_slip_frame_eq
        split: if_splits)

lemma process_frame_fault:
  assumes "process_frame dispatch h = Inl e"
  shows "e = ResponseBufferOverrun"
  using assms
  by (auto simp add: process_frame_def Let_def split: if_splits)

lemma firmware_step_in_bounds:
  assumes "frame_pos h \<le> MAX_FRAME_SIZE" "length (frame_buffer h) = MAX_FRAME_SIZE"
  shows "case process_byte (process_frame dispatch) h b of
           Inl e \<Rightarrow> e = ResponseBufferOverrun
         | Inr h' \<Rightarrow> frame_pos h' \<le> MAX_FRAME_SIZE \<and> length (frame_buffer h') = MAX_FRAME_SIZE"
proof (cases "state h = MCP_RECEIVING \<and> b = SLIP_END \<and> 1 < frame_pos h")
  case True
  with assms show ?thesis
    by (auto simp add: process_byte_def Serial_write_def reset_frame_def Let_def
          split: sum.splits dest: process_frame_fault process_frame_keeps_decoder)
next
  case False
  with assms show ?thesis
    by (cases "state h")
       (auto simp add: process_byte_def Serial_write_def store_frame_byte_def reset_frame_def
          Let_def split: sum.splits)
qed

lemma firmware_in_bounds:
  assumes "frame_pos h \<le> MAX_FRAME_SIZE" "length (frame_buffer h) = MAX_FRAME_SIZE"
  shows "case process_serial (process_frame dispatch) h rx of
           Inl e \<Rightarrow> e = ResponseBufferOverrun
         | Inr h' \<Rightarrow> frame_pos h' \<le> MAX_FRAME_SIZE \<and> length (frame_buffer h') = MAX_FRAME_SIZE"
  using assms
proof (induction rx arbitrary: h)
  case Nil
  then show ?case by simp
next
  case (Cons b rx)
  show ?case
  proof (cases "process_byte (process_frame dispatch) h b")
    case (Inl e)
    with firmware_step_in_bounds [OF Cons.prems, of dispatch b] show ?thesis
      by simp
  next
    case (Inr h1)
    with firmware_step_in_bounds [OF Cons.prems, of dispatch b]
    have "frame_pos h1 \<le> MAX_FRAME_SIZE" "length (frame_buffer h1) = MAX_FRAME_SIZE"
      by simp_all
    from Cons.IH [OF this] Inr show ?thesis
      by simp
  qed
qed

text \<open>
  Claim C9. Started from the state after construction, with any contents of the arrays,
  the decoder consumes every byte sequence without a write outside \<open>frame_buffer\<close>;
  \<open>frame_pos\<close> stays at most 256 and every frame handed to \<open>process_frame\<close> has at most
  256 bytes. The same bounds hold when the frames go to the real \<open>process_frame\<close>, whose
  only possible fault is a response length outside \<open>response_buffer\<close>.
\<close>

theorem decoder_never_overruns:
  assumes "frame_pos h = 0" "state h = MCP_IDLE" "length (frame_buffer h) = MAX_FRAME_SIZE"
    "handed h = []"
  shows "(\<exists>h'. process_serial record_frame h rx = Inr h'
       \<and> frame_pos h' \<le> MAX_FRAME_SIZE
       \<and> length (frame_buffer h') = MAX_FRAME_SIZE
       \<and> (\<forall>f \<in> set (handed h'). length f \<le> MAX_FRAME_SIZE))
     \<and> (case process_serial (process_frame dispatch) h rx of
           Inl e \<Rightarrow> e = ResponseBufferOverrun
         | Inr h' \<Rightarrow> frame_pos h' \<le> MAX_FRAME_SIZE \<and> length (frame_buffer h') = MAX_FRAME_SIZE)"
proof
  from assms have "within_bounds h"
    by (simp add: within_bounds_def)
  from process_serial_within_bounds [OF this, of rx]
  show "\<exists>h'. process_serial record_frame h rx = Inr h'
       \<and> frame_pos h' \<le> MAX_FRAME_SIZE
       \<and> length (frame_buffer h') = MAX_FRAME_SIZE
       \<and> (\<forall>f \<in> set (handed h'). length f \<le> MAX_FRAME_SIZE)"
    by (simp add: within_bounds_def)
next
  from assms have "frame_pos h \<le> MAX_FRAME_SIZE" "length (frame_buffer h) = MAX_FRAME_SIZE"
    by simp_all
  then show "case process_serial (process_frame dispatch) h rx of
           Inl e \<Rightarrow> e = ResponseBufferOverrun
         | Inr h' \<Rightarrow> frame_pos h' \<le> MAX_FRAME_SIZE \<and> length (frame_buffer h') = MAX_FRAME_SIZE"
    by (rule firmware_in_bounds)
qed

theorem decoder_never_overruns_witness:
  "frame_pos power_on = 0 \<and> state power_on = MCP_IDLE
   \<and> length (frame_buffer power_on) = MAX_FRAME_SIZE \<and> handed power_on = []
   \<and> (\<exists>h'. process_serial record_frame power_on (SLIP_END # replicate 300 0x55 @ [SLIP_END])
         = Inr h'
       \<and> frame_pos h' \<le> MAX_FRAME_SIZE
       \<and> length (frame_buffer h') = MAX_FRAME_SIZE
       \<and> (\<forall>f \<in> set (handed h'). length f \<le> MAX_FRAME_SIZE))
   \<and> (case process_serial (process_frame rejecting_dispatch) power_on
           (SLIP_END # replicate 300 0x55 @ [SLIP_END]) of
         Inl e \<Rightarrow> e = ResponseBufferOverrun
       | Inr h' \<Rightarrow> frame_pos h' \<le> MAX_FRAME_SIZE \<and> length (frame_buffer h') = MAX_FRAME_SIZE)"
proof -
  have a: "frame_pos power_on = 0" and b: "state power_on = MCP_IDLE"
    and c: "length (frame_buffer power_on) = MAX_FRAME_SIZE" and d: "handed power_on = []"
    by (simp_all add: power_on_def)
  from decoder_never_overruns [OF a b c d, of "SLIP_END # replicate 300 0x55 @ [SLIP_END]"
      rejecting_dispatch] a b c d
  show ?thesis
    by blast
qed

lemma process_frame_short: "frame_pos h < 2 \<Longrightarrow> process_frame dispatch h = Inr h"
  by (simp add: process_frame_def)

lemma receive_END_short:
  assumes "state h = MCP_RECEIVING" "frame_pos h < 2"
  shows "process_byte pf h SLIP_END =
     Inr (h\<lparr>Serial := Serial h @ [0x52, 0x45], frame_pos := 0, state := MCP_IDLE\<rparr>)"
  using assms by (simp add: process_byte_def Serial_write_def reset_frame_def)

text \<open>
  Claim C10. With fewer than two bytes buffered, \<open>process_frame\<close> returns at once and
  leaves the handler as it was: no CRC check, no dispatch, nothing written. The decoder
  does not even call it: on the closing \<open>END\<close> it prints its two debug characters
  \<^verbatim>\<open>R E\<close>, sends no frame, and resets to \<open>IDLE\<close> with an empty buffer, after which the
  encoding of a frame \<open>v\<close> is received and handed on as usual.
\<close>

theorem short_frame_dropped:
  assumes "state h = MCP_RECEIVING" "frame_pos h < 2"
    "length (frame_buffer h) = MAX_FRAME_SIZE" "2 \<le> length v" "length v \<le> 254"
  shows "process_frame dispatch h = Inr h
    \<and> process_byte pf h SLIP_END =
        Inr (h\<lparr>Serial := Serial h @ [0x52, 0x45], frame_pos := 0, state := MCP_IDLE\<rparr>)
    \<and> frames_of (process_serial record_frame h
          (SLIP_END # written_by (send_slip_frame v (length v)) tx)) = Some (handed h @ [v])"
proof -
  let ?h1 = "h\<lparr>Serial := Serial h @ [0x52, 0x45], frame_pos := 0, state := MCP_IDLE\<rparr>"
  from assms have "state ?h1 = MCP_IDLE" "length (frame_buffer ?h1) = MAX_FRAME_SIZE"
    "2 \<le> length v" "length v \<le> MAX_FRAME_SIZE"
    by simp_all
  from receive_encoding [OF this] obtain h' where
    "process_serial record_frame ?h1 (slip_encoding v) = Inr h'" "handed h' = handed h @ [v]"
    by auto
  with assms(1,2) have "frames_of (process_serial record_frame h
          (SLIP_END # written_by (send_slip_frame v (length v)) tx)) = Some (handed h @ [v])"
    by (simp add: receive_END_short written_by_send_slip_frame frames_of_def)
  with assms(1,2) show ?thesis
    by (simp add: process_frame_short receive_END_short)
qed

lemma one_byte_pending_reached:
  "process_serial record_frame power_on [SLIP_END, 0x41] = Inr one_byte_pending"
  by (simp add: one_byte_pending_def power_on_def process_byte_def Serial_write_def store_frame_byte_def)

theorem short_frame_dropped_witness:
  "state one_byte_pending = MCP_RECEIVING
   \<and> frame_pos one_byte_pending < 2
   \<and> length (frame_buffer one_byte_pending) = MAX_FRAME_SIZE
   \<and> 2 \<le> length [0x01, 0x07 :: byte] \<and> length [0x01, 0x07 :: byte] \<le> 254
   \<and> process_frame rejecting_dispatch one_byte_pending = Inr one_byte_pending
   \<and> process_byte record_frame one_byte_pending SLIP_END =
        Inr (one_byte_pending\<lparr>Serial := Serial one_byte_pending @ [0x52, 0x45],
                              frame_pos := 0, state := MCP_IDLE\<rparr>)
   \<and> frames_of (process_serial record_frame one_byte_pending
          (SLIP_END # written_by (send_slip_frame [0x01, 0x07] (length [0x01, 0x07 :: byte])) power_on))
       = Some (handed one_byte_pending @ [[0x01, 0x07]])"
proof -
  have a: "state one_byte_pending = MCP_RECEIVING"
    and b: "frame_pos one_byte_pending < 2"
    and c: "length (frame_buffer one_byte_pending) = MAX_FRAME_SIZE"
    by (simp_all add: one_byte_pending_def power_on_def)
  have d: "2 \<le> length [0x01, 0x07 :: byte]" and e: "length [0x01, 0x07 :: byte] \<le> 254"
    by simp_all
  from short_frame_dropped [OF a b c d e, of rejecting_dispatch record_frame power_on] a b c d e
  show ?thesis
    by blast
qed

section \<open>Frame processing\<close>

text \<open>Whatever the error code, the error exit sends the two bytes \<open>FF F3\<close>.\<close>

lemma crc8_FF: "crc8 [0xFF, code] 1 = 0xF3"
proof -
  have "crc8 [0xFF] 1 = 0xF3"
    by code_simp
  then show ?thesis
    by (simp add: crc8_def)
qed

lemma send_error_response_ignores_code:
  "send_error_response code h = send_slip_frame [0xFF, 0xF3] 2 h"
  unfolding send_error_response_def Let_def crc8_FF by simp

text \<open>
  Claim C1 does not hold of the code. Both error exits of \<open>process_frame\<close> overwrite the
  error code with the CRC of the byte 0xFF and send two bytes. Evaluated on the firmware
  after power-on: a command with a wrong CRC (\<open>01 00\<close>) and a command that the dispatcher
  rejects (\<open>01 07\<close>) both produce, after the decoder's debug characters, the SLIP frame
  \<open>FF F3\<close>, not \<open>FF 01 D0\<close> or \<open>FF 02 D9\<close>.
\<close>

theorem error_response_has_two_bytes:
  "serial_of (process_serial (process_frame rejecting_dispatch) power_on
       [SLIP_END, 0x01, 0x00, SLIP_END])
     = Some ([0x52, 0x53, 0x52, 0x44, 0x52, 0x44, 0x52, 0x45, 0x50]
          @ [SLIP_ESC, SLIP_CLEAR, SLIP_END, 0xFF, 0xF3, SLIP_END])
   \<and> serial_of (process_serial (process_frame rejecting_dispatch) power_on
       [SLIP_END, 0x01, 0x07, SLIP_END])
     = Some ([0x52, 0x53, 0x52, 0x44, 0x52, 0x44, 0x52, 0x45, 0x50]
          @ [SLIP_ESC, SLIP_CLEAR, SLIP_END, 0xFF, 0xF3, SLIP_END])"
  by code_simp

lemma send_slip_frame_span:
  "len \<le> length data \<Longrightarrow> send_slip_frame data len h = send_slip_frame (take len data) len h"
  by (simp add: send_slip_frame_def)

lemma crc8_span: "crc8 (take n data) n = crc8 data n"
  by (simp add: crc8_def)

text \<open>
  Claim C8. When the command frame's CRC verifies and the dispatcher succeeds with a
  response of \<open>n \<le> 255\<close> bytes, \<open>process_frame\<close> stores the CRC of these \<open>n\<close> bytes behind
  them and sends, through \<open>send_slip_frame\<close>, the frame of \<open>n + 1\<close> bytes made of the
  response and that CRC; the frame has at most 256 bytes.
\<close>

theorem response_frame_carries_crc:
  assumes "2 \<le> frame_pos h" "frame_pos h \<le> length (frame_buffer h)"
    "frame_buffer h ! (frame_pos h - 1) = crc8 (frame_buffer h) (frame_pos h - 1)"
    "dispatch (frame_buffer h) (frame_pos h - 1) (response_buffer h) 255 = r"
    "result r = 0" "response_len r = int n" "n \<le> 255"
    "length (response r) = MAX_FRAME_SIZE"
  shows "process_frame dispatch h =
       Inr (send_slip_frame (take n (response r) @ [crc8 (take n (response r)) n]) (n + 1)
             (h\<lparr>Serial := Serial h @ tool_output r,
                 response_buffer := (response r)[n := crc8 (take n (response r)) n]\<rparr>))
     \<and> length (take n (response r) @ [crc8 (take n (response r)) n]) = n + 1
     \<and> n + 1 \<le> MAX_FRAME_SIZE"
proof -
  let ?crc = "crc8 (response r) n"
  from assms have n: "n < length (response r)"
    by simp
  then have frame: "take (n + 1) ((response r)[n := ?crc]) = take n (response r) @ [?crc]"
    by (simp add: take_Suc_update)
  from n have "n + 1 \<le> length ((response r)[n := ?crc])"
    by simp
  then have "send_slip_frame ((response r)[n := ?crc]) (n + 1) h' =
      send_slip_frame (take n (response r) @ [?crc]) (n + 1) h'" for h' :: "'a MCPHandler_scheme"
    using send_slip_frame_span [of "n + 1" "(response r)[n := ?crc]" h'] frame by simp
  with assms n show ?thesis
    by (simp add: process_frame_def Let_def crc8_span)
qed

theorem response_frame_carries_crc_witness:
  "2 \<le> frame_pos command_pending
   \<and> frame_pos command_pending \<le> length (frame_buffer command_pending)
   \<and> frame_buffer command_pending ! (frame_pos command_pending - 1)
       = crc8 (frame_buffer command_pending) (frame_pos command_pending - 1)
   \<and> answering_dispatch (frame_buffer command_pending) (frame_pos command_pending - 1)
        (response_buffer command_pending) 255 = answer
   \<and> result answer = 0 \<and> response_len answer = int 2 \<and> (2::nat) \<le> 255
   \<and> length (response answer) = MAX_FRAME_SIZE
   \<and> serial_of (process_frame answering_dispatch command_pending)
       = Some [SLIP_ESC, SLIP_CLEAR, SLIP_END, 0x2A, 0x00, 0x2C, SLIP_END]"
proof -
  have a: "2 \<le> frame_pos command_pending"
    and b: "frame_pos command_pending \<le> length (frame_buffer command_pending)"
    by (simp_all add: command_pending_def power_on_def)
  have c: "frame_buffer command_pending ! (frame_pos command_pending - 1)
       = crc8 (frame_buffer command_pending) (frame_pos command_pending - 1)"
    by code_simp
  have d: "answering_dispatch (frame_buffer command_pending) (frame_pos command_pending - 1)
        (response_buffer command_pending) 255 = answer"
    by (simp add: answer_def)
  have e: "result answer = 0" and f: "response_len answer = int 2" and g: "(2::nat) \<le> 255"
    and h: "length (response answer) = MAX_FRAME_SIZE"
    by (simp_all add: answer_def answering_dispatch_def command_pending_def power_on_def)
  have i: "take 2 (response answer) = [0x2A, 0x00]"
    by (simp add: answer_def answering_dispatch_def command_pending_def power_on_def
        numeral_2_eq_2 take_Suc_conv_app_nth)
  have j: "crc8 [0x2A, 0x00] 2 = 0x2C"
    by code_simp
  have k: "Serial command_pending @ tool_output answer = []"
    by (simp add: answer_def answering_dispatch_def command_pending_def power_on_def)
  from response_frame_carries_crc
    [where h = command_pending and dispatch = answering_dispatch and r = answer and n = 2,
      OF a b c d e f g h]
  have "process_frame answering_dispatch command_pending =
     Inr (send_slip_frame ([0x2A, 0x00] @ [0x2C]) (2 + 1)
       (command_pending\<lparr>Serial := [], response_buffer := (response answer)[2 := 0x2C]\<rparr>))"
    by (simp only: i j k)
  then have "serial_of (process_frame answering_dispatch command_pending)
       = Some [SLIP_ESC, SLIP_CLEAR, SLIP_END, 0x2A, 0x00, 0x2C, SLIP_END]"
    by (simp add: serial_of_def send_slip_frame_eq slip_encoding_def slip_escape_def)
  with a b c d e f g h show ?thesis
    by blast
qed

end
